theory Spec2Isabelle
  imports Complex_Main "HOL-Library.Word" "HOL-Library.Multiset"
begin

section \<open>Data model\<close>

text \<open>
  The leaderboard server of \<^verbatim>\<open>server.go\<close>. The repository holds two copies of the
  program; they agree on everything modelled here except \<^verbatim>\<open>addUser\<close>, of which both
  copies are modelled.

  Go's \<^verbatim>\<open>error\<close> values: \<^verbatim>\<open>redis.Nil\<close> (the key is absent), any other failure of a store
  call, a failure of \<^verbatim>\<open>encoding/json\<close>, and a failure of a websocket call.
\<close>

datatype error = RedisNil | StoreError string | JsonError string | ConnError string

text \<open>
  \<^verbatim>\<open>type GameState struct { Username string; Score int }\<close>. No arithmetic is ever done on
  a score (it is copied and compared), so \<^typ>\<open>int\<close> stands for Go's \<^verbatim>\<open>int\<close>.
\<close>

record GameState =
  Username :: string
  Score :: int

text \<open>\<^verbatim>\<open>type UserResponse struct { Username string; Score int; State string }\<close>\<close>

record UserResponse =
  resp_Username :: string
  resp_Score :: int
  resp_State :: string

text \<open>
  A value decoded into \<^verbatim>\<open>interface{}\<close> by \<^verbatim>\<open>encoding/json\<close>: nil, bool, float64, string,
  a slice, or a \<^verbatim>\<open>map[string]interface{}\<close> (an association list, read with \<^const>\<open>map_of\<close>).
  A float64 decoded from JSON is finite and is kept as the real number it denotes.
\<close>

datatype jvalue =
    JNull
  | JBool bool
  | JNumber real
  | JString string
  | JArray "jvalue list"
  | JObject "(string \<times> jvalue) list"

text \<open>
  The calls into \<^verbatim>\<open>encoding/json\<close> that the program makes, and the conversion
  \<^verbatim>\<open>int(score)\<close> of a float64. They are library code, so the program is modelled over any
  behaviour of them:
  \<^item> \<open>Marshal_state\<close>: \<^verbatim>\<open>json.Marshal(GameState{...})\<close>;
  \<^item> \<open>Marshal_update\<close>: \<^verbatim>\<open>json.Marshal\<close> of
    \<^verbatim>\<open>map[string]interface{}{"type": "DataUpdated", "value": gameStateData}\<close>;
  \<^item> \<open>Marshal_confirm\<close>: \<^verbatim>\<open>json.Marshal\<close> of
    \<^verbatim>\<open>map[string]interface{}{"type": "subscription_confirmed"}\<close>;
  \<^item> \<open>Unmarshal_state\<close>: \<^verbatim>\<open>json.Unmarshal\<close> into a fresh \<^verbatim>\<open>GameState\<close>;
  \<^item> \<open>Decode_state\<close>: \<^verbatim>\<open>json.NewDecoder(r.Body).Decode(&user)\<close>;
  \<^item> \<open>Unmarshal_data\<close>: \<^verbatim>\<open>json.Unmarshal\<close> into an empty \<^verbatim>\<open>map[string]interface{}\<close>;
  \<^item> \<open>Encode_response\<close>: the text \<^verbatim>\<open>json.NewEncoder(w).Encode(response)\<close> writes
    (the source ignores its error);
  \<^item> \<open>float_to_int\<close>: \<^verbatim>\<open>int(score)\<close>.
\<close>

record json =
  Marshal_state :: "GameState \<Rightarrow> error + string"
  Marshal_update :: "GameState \<Rightarrow> error + string"
  Marshal_confirm :: "error + string"
  Unmarshal_state :: "string \<Rightarrow> error + GameState"
  Decode_state :: "string \<Rightarrow> error + GameState"
  Unmarshal_data :: "string \<Rightarrow> error + (string \<times> jvalue) list"
  Encode_response :: "UserResponse \<Rightarrow> string"
  float_to_int :: "real \<Rightarrow> int"

subsection \<open>The store\<close>

text \<open>
  The Redis server is a map from keys to values. Each call of the client either fails in
  transit (an outcome \<open>Some e\<close>, chosen by the environment) or is answered by the store:
  \<^verbatim>\<open>client.Get(ctx, key).Result()\<close> answers the value or \<^verbatim>\<open>redis.Nil\<close>,
  \<^verbatim>\<open>client.Set(ctx, key, v, 0).Err()\<close> stores the value. A call that fails leaves the store
  as it was.
\<close>

type_synonym store = "string \<rightharpoonup> string"

definition redis_Get :: "error option \<Rightarrow> store \<Rightarrow> string \<Rightarrow> error + string" where
  "redis_Get fault kv key =
     (case fault of
        Some e \<Rightarrow> Inl e
      | None \<Rightarrow> (case kv key of None \<Rightarrow> Inl RedisNil | Some v \<Rightarrow> Inr v))"

definition redis_Set :: "error option \<Rightarrow> store \<Rightarrow> string \<Rightarrow> string \<Rightarrow> error + store" where
  "redis_Set fault kv key v =
     (case fault of
        Some e \<Rightarrow> Inl e
      | None \<Rightarrow> Inr (kv(key \<mapsto> v)))"

text \<open>\<^verbatim>\<open>.Val()\<close> of a reply: the value, or the empty string when the call failed.\<close>

definition Val :: "error + string \<Rightarrow> string" where
  "Val r = (case r of Inl e \<Rightarrow> [] | Inr v \<Rightarrow> v)"

subsection \<open>Connections and the subscriber registry\<close>

text \<open>
  A \<^verbatim>\<open>*websocket.Conn\<close> is its identity. The state shared by the handlers:
  \<^item> \<open>redis\<close>: the store's contents;
  \<^item> \<open>leaderboardSubscribers\<close>: the global \<^verbatim>\<open>map[*websocket.Conn]bool\<close>;
  \<^item> \<open>written\<close>: every \<^verbatim>\<open>WriteMessage\<close> call made so far, oldest first, as the connection
    and the text frame handed to it (a call is logged whether or not it succeeds);
  \<^item> \<open>closed\<close>: the connections on which \<^verbatim>\<open>Close\<close> has run.
\<close>

type_synonym conn = nat

record world =
  redis :: store
  leaderboardSubscribers :: "conn \<rightharpoonup> bool"
  written :: "(conn \<times> string) list"
  closed :: "conn set"

text \<open>
  What the environment decides during one call of \<^verbatim>\<open>updateScore\<close>:
  \<^item> \<open>set_err\<close>: the outcome of its \<^verbatim>\<open>client.Set\<close>;
  \<^item> \<open>write_err\<close>: the outcome of \<^verbatim>\<open>WriteMessage\<close> on each connection;
  \<^item> \<open>range_order\<close>: the order in which \<^verbatim>\<open>range leaderboardSubscribers\<close> produces the
    keys (Go leaves the order of a map iteration unspecified).
\<close>

record outcomes =
  set_err :: "error option"
  write_err :: "conn \<Rightarrow> error option"
  range_order :: "conn list"

section \<open>The update broadcaster\<close>

text \<open>
  The loop \<^verbatim>\<open>for subscriber := range leaderboardSubscribers\<close> of \<^verbatim>\<open>updateScore\<close>, over the
  keys in the order the runtime produces them. An entry removed before it is reached is not
  produced. Each subscriber visited gets one \<^verbatim>\<open>WriteMessage\<close>; when that fails the
  subscriber is deleted from the map and the loop continues.
\<close>

fun broadcast :: "(conn \<Rightarrow> error option) \<Rightarrow> string \<Rightarrow> conn list \<Rightarrow> world \<Rightarrow> world" where
  "broadcast wr messageJSON [] w = w"
| "broadcast wr messageJSON (subscriber # rest) w =
     (if leaderboardSubscribers w subscriber = None then broadcast wr messageJSON rest w
      else
        (let w1 = w\<lparr>written := written w @ [(subscriber, messageJSON)]\<rparr> in
         case wr subscriber of
           Some e \<Rightarrow>
             broadcast wr messageJSON rest
               (w1\<lparr>leaderboardSubscribers := (leaderboardSubscribers w1)(subscriber := None)\<rparr>)
         | None \<Rightarrow> broadcast wr messageJSON rest w1))"

text \<open>
  \<^verbatim>\<open>func updateScore(username string, newScore int) error\<close>: the returned error
  (\<open>None\<close> is \<^verbatim>\<open>nil\<close>) and the state afterwards.
\<close>

definition updateScore ::
  "json \<Rightarrow> outcomes \<Rightarrow> string \<Rightarrow> int \<Rightarrow> world \<Rightarrow> error option \<times> world" where
  "updateScore js oc username newScore w =
     (let gameStateData = \<lparr>Username = username, Score = newScore\<rparr> in
      case Marshal_state js \<lparr>Username = username, Score = newScore\<rparr> of
        Inl e \<Rightarrow> (Some e, w)
      | Inr gameStateJSON \<Rightarrow>
          (case redis_Set (set_err oc) (redis w) (''user:'' @ username) gameStateJSON of
             Inl e \<Rightarrow> (Some e, w)
           | Inr kv \<Rightarrow>
               (let w1 = w\<lparr>redis := kv\<rparr> in
                case Marshal_update js gameStateData of
                  Inl e \<Rightarrow> (Some e, w1)
                | Inr messageJSON \<Rightarrow>
                    (None, broadcast (write_err oc) messageJSON (range_order oc) w1))))"

section \<open>The connection protocol handler\<close>

text \<open>
  One \<^verbatim>\<open>ws.ReadMessage()\<close>: an error, or a frame with its message type and payload.
  \<^verbatim>\<open>websocket.TextMessage\<close> is 1.
\<close>

datatype read_result = ReadError error | Message nat string

definition TextMessage :: nat where
  "TextMessage = 1"

text \<open>
  Type assertions on a map entry, \<^verbatim>\<open>m[k].(T)\<close> in the two-result form: the value and
  \<^verbatim>\<open>ok\<close>; the zero value of \<^verbatim>\<open>T\<close> when the entry is absent or of another type. A lookup
  in the nil map that a failed assertion leaves finds nothing.
\<close>

definition as_map :: "jvalue option \<Rightarrow> (string \<times> jvalue) list \<times> bool" where
  "as_map v = (case v of Some (JObject m) \<Rightarrow> (m, True) | _ \<Rightarrow> ([], False))"

definition as_string :: "jvalue option \<Rightarrow> string \<times> bool" where
  "as_string v = (case v of Some (JString s) \<Rightarrow> (s, True) | _ \<Rightarrow> ([], False))"

definition as_float64 :: "jvalue option \<Rightarrow> real \<times> bool" where
  "as_float64 v = (case v of Some (JNumber x) \<Rightarrow> (x, True) | _ \<Rightarrow> (0, False))"

text \<open>
  How one pass through the body of the \<^verbatim>\<open>for\<close> loop of \<^verbatim>\<open>handleWebSocket\<close> ends:
  \<open>Continue\<close> is the next iteration (the loop has no \<^verbatim>\<open>break\<close>), \<open>Return\<close> leaves the
  function.
\<close>

datatype control = Continue | Return

text \<open>
  The body of the loop, for the connection \<open>ws\<close> and the result of its \<^verbatim>\<open>ReadMessage\<close>.
  What \<^verbatim>\<open>ReadMessage\<close> answers, also on a connection that has failed before, is the
  library's affair: the results of the reads are given. The \<^verbatim>\<open>fmt.Println\<close> calls are
  not modelled. The result of the confirmation's
  \<^verbatim>\<open>WriteMessage\<close> is ignored by the source, as is the error of \<^verbatim>\<open>updateScore\<close>
  (it is only printed).
\<close>

definition handleWebSocket_body ::
  "json \<Rightarrow> outcomes \<Rightarrow> conn \<Rightarrow> read_result \<Rightarrow> world \<Rightarrow> control \<times> world" where
  "handleWebSocket_body js oc ws rr w =
     (case rr of
        ReadError e \<Rightarrow> (Continue, w)
      | Message messageType message \<Rightarrow>
          if messageType = TextMessage then
            (case Unmarshal_data js message of
               Inl e \<Rightarrow> (Continue, w)
             | Inr data \<Rightarrow>
                 (case
                    (if map_of data ''type'' = Some (JString ''subscribe'') \<and>
                        map_of data ''channel'' = Some (JString ''leaderboard_updates'')
                     then
                       (case Marshal_confirm js of
                          Inl e \<Rightarrow> None
                        | Inr jsonData \<Rightarrow> Some (w\<lparr>written := written w @ [(ws, jsonData)]\<rparr>))
                     else Some w)
                  of
                    None \<Rightarrow> (Return, w)
                  | Some w1 \<Rightarrow>
                      if map_of data ''type'' = Some (JString ''update'') then
                        (let (valuemap, ok) = as_map (map_of data ''value'');
                             (username, userok) = as_string (map_of valuemap ''username'');
                             (score, scoreok) = as_float64 (map_of valuemap ''score'')
                         in if scoreok \<and> userok
                            then (Continue, snd (updateScore js oc username (float_to_int js score) w1))
                            else (Continue, w1))
                      else (Continue, w1)))
          else (Continue, w))"

text \<open>
  The \<^verbatim>\<open>for\<close> loop, run on the results of the successive reads, each with what the
  environment decides during that iteration. When the reads given are used up the loop is
  still running (\<open>Continue\<close>): it waits in the next \<^verbatim>\<open>ReadMessage\<close>.
\<close>

fun handleWebSocket_loop ::
  "json \<Rightarrow> conn \<Rightarrow> (read_result \<times> outcomes) list \<Rightarrow> world \<Rightarrow> control \<times> world" where
  "handleWebSocket_loop js ws [] w = (Continue, w)"
| "handleWebSocket_loop js ws ((rr, oc) # reads) w =
     (case handleWebSocket_body js oc ws rr w of
        (Return, w') \<Rightarrow> (Return, w')
      | (Continue, w') \<Rightarrow> handleWebSocket_loop js ws reads w')"

text \<open>
  \<^verbatim>\<open>func handleWebSocket(w, r)\<close>: \<open>upgrade\<close> is the result of \<^verbatim>\<open>upgrader.Upgrade\<close>. The
  deferred \<^verbatim>\<open>ws.Close()\<close> runs when the function returns.
\<close>

definition handleWebSocket ::
  "json \<Rightarrow> error + conn \<Rightarrow> (read_result \<times> outcomes) list \<Rightarrow> world \<Rightarrow> control \<times> world" where
  "handleWebSocket js upgrade reads w =
     (case upgrade of
        Inl e \<Rightarrow> (Return, w)
      | Inr ws \<Rightarrow>
          (case handleWebSocket_loop js ws reads
                  (w\<lparr>leaderboardSubscribers := (leaderboardSubscribers w)(ws \<mapsto> True)\<rparr>) of
             (Return, w') \<Rightarrow> (Return, w'\<lparr>closed := insert ws (closed w')\<rparr>)
           | (Continue, w') \<Rightarrow> (Continue, w')))"

section \<open>The leaderboard aggregator\<close>

text \<open>\<^verbatim>\<open>strings.HasPrefix(s, prefix)\<close>\<close>

definition HasPrefix :: "string \<Rightarrow> string \<Rightarrow> bool" where
  "HasPrefix s pre = (take (length pre) s = pre)"

text \<open>
  \<^verbatim>\<open>strings.Split(s, sep)\<close> for a separator of one byte (the program splits at \<^verbatim>\<open>":"\<close>
  only): the pieces between the separators, one more than there are separators.
\<close>

fun Split :: "string \<Rightarrow> char \<Rightarrow> string list" where
  "Split [] sep = [[]]"
| "Split (c # cs) sep =
     (if c = sep then [] # Split cs sep
      else (let r = Split cs sep in (c # hd r) # tl r))"

text \<open>
  The client as \<^verbatim>\<open>getAllPlayers\<close> uses it:
  \<^item> \<open>Scan_reply n c\<close>: the result of the \<open>n\<close>-th call (counting from 0) of
    \<^verbatim>\<open>client.Scan(ctx, c, "", 100).Result()\<close>, a page of keys and the next cursor;
  \<^item> \<open>Get_fault key\<close>: whether \<^verbatim>\<open>client.Get(ctx, key)\<close> fails in transit;
  \<^item> \<open>keyspace\<close>: the store's contents.
\<close>

record client =
  Scan_reply :: "nat \<Rightarrow> 64 word \<Rightarrow> error + (string list \<times> 64 word)"
  Get_fault :: "string \<Rightarrow> error option"
  keyspace :: store

text \<open>
  The inner loop \<^verbatim>\<open>for _, key := range keys\<close>: a key with the prefix \<^verbatim>\<open>"user:"\<close> and two
  pieces around \<^verbatim>\<open>":"\<close> has its value fetched (\<^verbatim>\<open>.Val()\<close>, the error of the fetch dropped)
  and decoded; a decoding error leaves the whole function (\<open>Inl\<close>). Other keys are passed
  over.
\<close>

fun scan_page :: "json \<Rightarrow> client \<Rightarrow> string list \<Rightarrow> GameState list \<Rightarrow> error + GameState list" where
  "scan_page js cl [] players = Inr players"
| "scan_page js cl (key # keys) players =
     (if HasPrefix key ''user:'' then
        (if length (Split key CHR '':'') = 2 then
           (case Unmarshal_state js (Val (redis_Get (Get_fault cl key) (keyspace cl) key)) of
              Inl e \<Rightarrow> Inl e
            | Inr gameState \<Rightarrow> scan_page js cl keys (players @ [gameState]))
         else scan_page js cl keys players)
      else scan_page js cl keys players)"

text \<open>
  The outer \<^verbatim>\<open>for\<close> loop. The statement
  \<^verbatim>\<open>keys, cursor, err := client.Scan(ctx, cursor, matchPattern, 100).Result()\<close> stands inside
  the loop's block, so its \<^verbatim>\<open>:=\<close> declares new variables \<^verbatim>\<open>keys\<close>, \<^verbatim>\<open>cursor\<close> and
  \<^verbatim>\<open>err\<close> there; their scope starts after the statement. The \<^verbatim>\<open>cursor\<close> passed to
  \<^verbatim>\<open>Scan\<close> is therefore the function's variable (here \<open>cursor\<close>, never assigned again),
  and the one tested by \<^verbatim>\<open>if cursor == 0\<close> is the loop's (here \<open>cursor'\<close>).

  The loop has no bound, so it runs on fuel: one unit per iteration. The result is the
  cursors passed to \<^verbatim>\<open>Scan\<close> so far, oldest first, and \<open>None\<close> when the fuel ran out with
  the loop still running, else how the loop was left: \<open>Inl e\<close> by \<^verbatim>\<open>return nil, err\<close>,
  \<open>Inr players\<close> by \<^verbatim>\<open>break\<close>.
\<close>

fun getAllPlayers_loop ::
  "json \<Rightarrow> client \<Rightarrow> nat \<Rightarrow> 64 word \<Rightarrow> 64 word list \<Rightarrow> GameState list \<Rightarrow>
     64 word list \<times> (error + GameState list) option" where
  "getAllPlayers_loop js cl 0 cursor calls players = (calls, None)"
| "getAllPlayers_loop js cl (Suc fuel) cursor calls players =
     (case Scan_reply cl (length calls) cursor of
        Inl e \<Rightarrow> (calls @ [cursor], Some (Inl e))
      | Inr (keys, cursor') \<Rightarrow>
          (case scan_page js cl keys players of
             Inl e \<Rightarrow> (calls @ [cursor], Some (Inl e))
           | Inr players' \<Rightarrow>
               if cursor' = 0 then (calls @ [cursor], Some (Inr players'))
               else getAllPlayers_loop js cl fuel cursor (calls @ [cursor]) players'))"

text \<open>The comparison given to \<^verbatim>\<open>sort.Slice\<close>: \<^verbatim>\<open>players[i].Score > players[j].Score\<close>.\<close>

definition by_score :: "GameState \<Rightarrow> GameState \<Rightarrow> bool" where
  "by_score a b = (Score a > Score b)"

text \<open>
  \<^verbatim>\<open>func getAllPlayers(client *redis.Client) ([]GameState, error)\<close>, with \<open>srt\<close> for
  \<^verbatim>\<open>sort.Slice\<close>. The result is the cursors passed to \<^verbatim>\<open>Scan\<close> and, when the function
  returns within the fuel, the pair it returns (a nil slice is the empty list, a nil error
  is \<open>None\<close>).
\<close>

definition getAllPlayers ::
  "json \<Rightarrow> ((GameState \<Rightarrow> GameState \<Rightarrow> bool) \<Rightarrow> GameState list \<Rightarrow> GameState list) \<Rightarrow> client \<Rightarrow> nat \<Rightarrow>
     64 word list \<times> (GameState list \<times> error option) option" where
  "getAllPlayers js srt cl fuel =
     (case getAllPlayers_loop js cl fuel 0 [] [] of
        (calls, None) \<Rightarrow> (calls, None)
      | (calls, Some (Inl e)) \<Rightarrow> (calls, Some ([], Some e))
      | (calls, Some (Inr players)) \<Rightarrow> (calls, Some (srt by_score players, None)))"

text \<open>
  \<^verbatim>\<open>sort.Slice\<close> promises a permutation of the slice in which no element is less than one
  before it, and nothing about the order of elements that compare equal.
\<close>

definition sorts_by_score ::
  "((GameState \<Rightarrow> GameState \<Rightarrow> bool) \<Rightarrow> GameState list \<Rightarrow> GameState list) \<Rightarrow> bool" where
  "sorts_by_score srt =
     (\<forall>xs. mset (srt by_score xs) = mset xs \<and>
           sorted_wrt (\<lambda>a b. \<not> by_score b a) (srt by_score xs))"

text \<open>
  On a slice of fewer than 12 elements \<^verbatim>\<open>sort.Slice\<close> is the library's insertion sort,
  \<^verbatim>\<open>for i := a + 1; i < b; i++ { for j := i; j > a && less(j, j-1); j-- { swap(j, j-1) } }\<close>:
  each element moves towards the front past the elements it is less than. \<open>sift\<close> holds
  the part already sorted back to front.
\<close>

fun sift :: "('a \<Rightarrow> 'a \<Rightarrow> bool) \<Rightarrow> 'a \<Rightarrow> 'a list \<Rightarrow> 'a list" where
  "sift lt x [] = [x]"
| "sift lt x (y # ys) = (if lt x y then y # sift lt x ys else x # y # ys)"

definition insertionSort :: "('a \<Rightarrow> 'a \<Rightarrow> bool) \<Rightarrow> 'a list \<Rightarrow> 'a list" where
  "insertionSort lt xs = rev (foldl (\<lambda>sorted_part x. sift lt x sorted_part) [] xs)"

text \<open>
  What the inner loop does with one key, named for the statements below: the test it
  applies to a key, the fetch and decoding of the value, and a key that passes the test
  while its value does not decode.
\<close>

definition is_player_key :: "string \<Rightarrow> bool" where
  "is_player_key key = (HasPrefix key ''user:'' \<and> length (Split key CHR '':'') = 2)"

definition fetch_decode :: "json \<Rightarrow> client \<Rightarrow> string \<Rightarrow> error + GameState" where
  "fetch_decode js cl key =
     Unmarshal_state js (Val (redis_Get (Get_fault cl key) (keyspace cl) key))"

definition corrupt :: "json \<Rightarrow> client \<Rightarrow> string \<Rightarrow> bool" where
  "corrupt js cl key = (is_player_key key \<and> isl (fetch_decode js cl key))"

text \<open>
  The \<open>i\<close>-th fetch (every fetch is made with the cursor 0) lets the scan go on: it
  gives a page without a corrupt key and a cursor other than 0.
\<close>

definition fetch_continues :: "json \<Rightarrow> client \<Rightarrow> nat \<Rightarrow> bool" where
  "fetch_continues js cl i =
     (case Scan_reply cl i 0 of
        Inl e \<Rightarrow> False
      | Inr (keys, cursor') \<Rightarrow> cursor' \<noteq> 0 \<and> find (corrupt js cl) keys = None)"

text \<open>
  The \<open>k\<close>-th fetch fails with \<open>e\<close>: the store answers the error \<open>e\<close>, or the first
  corrupt key of the page fails to decode with \<open>e\<close>.
\<close>

definition fetch_fails :: "json \<Rightarrow> client \<Rightarrow> nat \<Rightarrow> error \<Rightarrow> bool" where
  "fetch_fails js cl k e =
     (case Scan_reply cl k 0 of
        Inl e' \<Rightarrow> e' = e
      | Inr (keys, cursor') \<Rightarrow>
          (case find (corrupt js cl) keys of
             None \<Rightarrow> False
           | Some key \<Rightarrow> fetch_decode js cl key = Inl e))"

section \<open>The add-user handlers\<close>

text \<open>
  An HTTP request as the handler reads it (\<^verbatim>\<open>r.Method\<close>, \<^verbatim>\<open>r.Body\<close>), and the response
  it builds through the \<^verbatim>\<open>http.ResponseWriter\<close>: the status (200 unless
  \<^verbatim>\<open>WriteHeader\<close> sets another), the header map and the body written.
\<close>

record request =
  req_Method :: string
  req_Body :: string

record response =
  status :: nat
  headers :: "string \<rightharpoonup> string"
  body :: string

definition new_response :: response where
  "new_response = \<lparr>status = 200, headers = Map.empty, body = []\<rparr>"

definition Header_Set :: "string \<Rightarrow> string \<Rightarrow> response \<Rightarrow> response" where
  "Header_Set k v w = w\<lparr>headers := (headers w)(k \<mapsto> v)\<rparr>"

definition WriteHeader :: "nat \<Rightarrow> response \<Rightarrow> response" where
  "WriteHeader code w = w\<lparr>status := code\<rparr>"

definition Fprint :: "string \<Rightarrow> response \<Rightarrow> response" where
  "Fprint s w = w\<lparr>body := body w @ s\<rparr>"

text \<open>
  \<^verbatim>\<open>http.Error(w, msg, code)\<close>: two headers, the status, and the message on a line.
\<close>

definition http_Error :: "string \<Rightarrow> nat \<Rightarrow> response \<Rightarrow> response" where
  "http_Error msg code w =
     Fprint (msg @ [CHR 0x0A])
       (WriteHeader code
          (Header_Set ''X-Content-Type-Options'' ''nosniff''
             (Header_Set ''Content-Type'' ''text/plain; charset=utf-8'' w)))"

text \<open>The verb \<^verbatim>\<open>%d\<close> of \<^verbatim>\<open>fmt.Fprintf\<close>: an integer in decimal.\<close>

fun nat_digits :: "nat \<Rightarrow> string" where
  "nat_digits n =
     (if n < 10 then [''0123456789'' ! n]
      else nat_digits (n div 10) @ [''0123456789'' ! (n mod 10)])"

declare nat_digits.simps [simp del]

definition Itoa :: "int \<Rightarrow> string" where
  "Itoa i = (if i < 0 then CHR ''-'' # nat_digits (nat (- i)) else nat_digits (nat i))"

text \<open>
  The answer to a preflight request, common to the handlers: \<open>w\<close> already carries the
  \<^verbatim>\<open>Access-Control-Allow-Origin\<close> header.
\<close>

definition preflight :: "response \<Rightarrow> response" where
  "preflight w =
     WriteHeader 200
       (Header_Set ''Access-Control-Allow-Headers'' ''Content-Type''
          (Header_Set ''Access-Control-Allow-Methods'' ''GET, POST, OPTIONS'' w))"

text \<open>
  \<^verbatim>\<open>func addUser(w, r)\<close> of the first copy of the program (the one configured from the
  environment): it replies in plain text and stores the record as the request gave it.
  \<open>get_fault\<close> and \<open>set_fault\<close> are the outcomes in transit of its \<^verbatim>\<open>client.Get\<close> and
  \<^verbatim>\<open>client.Set\<close>. The result is the response and the store afterwards.
\<close>

definition addUser_text ::
  "json \<Rightarrow> error option \<Rightarrow> error option \<Rightarrow> request \<Rightarrow> store \<Rightarrow> response \<times> store" where
  "addUser_text js get_fault set_fault r kv =
     (let w = Header_Set ''Access-Control-Allow-Origin'' ''*'' new_response in
      if req_Method r = ''OPTIONS'' then (preflight w, kv)
      else
        (case Decode_state js (req_Body r) of
           Inl e \<Rightarrow> (http_Error ''Invalid request body'' 400 w, kv)
         | Inr user \<Rightarrow>
             (let usernameKey = ''user:'' @ Username user in
              case redis_Get get_fault kv usernameKey of
                Inr userGameState \<Rightarrow>
                  (case Unmarshal_state js userGameState of
                     Inl e \<Rightarrow> (http_Error ''Internal server error'' 500 w, kv)
                   | Inr existingUser \<Rightarrow>
                       (Fprint (''User '' @ Username user @ '' already exists with a score of '' @
                                Itoa (Score existingUser)) w, kv))
              | Inl err \<Rightarrow>
                  (case Marshal_state js user of
                     Inl e \<Rightarrow> (http_Error ''Internal server error'' 500 w, kv)
                   | Inr gameStateJSON \<Rightarrow>
                       (case redis_Set set_fault kv usernameKey gameStateJSON of
                          Inl e \<Rightarrow> (http_Error ''Failed to add user'' 500 w, kv)
                        | Inr kv' \<Rightarrow>
                            (Fprint (''User '' @ Username user @ '' added successfully!'') w, kv'))))))"

text \<open>
  \<^verbatim>\<open>func addUser(w, r)\<close> of the second copy (the one with the address of the store
  written in): it sets the score to 0 before storing and replies with a
  \<^verbatim>\<open>UserResponse\<close> encoded as JSON.
\<close>

definition addUser_json ::
  "json \<Rightarrow> error option \<Rightarrow> error option \<Rightarrow> request \<Rightarrow> store \<Rightarrow> response \<times> store" where
  "addUser_json js get_fault set_fault r kv =
     (let w = Header_Set ''Access-Control-Allow-Origin'' ''*'' new_response in
      if req_Method r = ''OPTIONS'' then (preflight w, kv)
      else
        (case Decode_state js (req_Body r) of
           Inl e \<Rightarrow> (http_Error ''Invalid request body'' 400 w, kv)
         | Inr user \<Rightarrow>
             (let usernameKey = ''user:'' @ Username user in
              case redis_Get get_fault kv usernameKey of
                Inr userGameState \<Rightarrow>
                  (case Unmarshal_state js userGameState of
                     Inl e \<Rightarrow> (http_Error ''Internal server error'' 500 w, kv)
                   | Inr existingUser \<Rightarrow>
                       (let response =
                              \<lparr>resp_Username = Username existingUser,
                               resp_Score = Score existingUser,
                               resp_State = ''already exists''\<rparr>
                        in (Fprint (Encode_response js response)
                              (Header_Set ''Content-Type'' ''application/json'' w), kv)))
              | Inl err \<Rightarrow>
                  (let user0 = user\<lparr>Score := 0\<rparr>;
                       response =
                         \<lparr>resp_Username = Username user0,
                          resp_Score = Score user0,
                          resp_State = ''newly added''\<rparr>
                   in case Marshal_state js user0 of
                        Inl e \<Rightarrow> (http_Error ''Internal server error'' 500 w, kv)
                      | Inr gameStateJSON \<Rightarrow>
                          (case redis_Set set_fault kv usernameKey gameStateJSON of
                             Inl e \<Rightarrow> (http_Error ''Failed to add user'' 500 w, kv)
                           | Inr kv' \<Rightarrow>
                               (Fprint (Encode_response js response)
                                  (Header_Set ''Content-Type'' ''application/json'' w), kv'))))))"

text \<open>
  A handler serving one request after another, each answered by the store without a
  failure in transit: the responses in order and the store at the end.
\<close>

fun serve ::
  "(error option \<Rightarrow> error option \<Rightarrow> request \<Rightarrow> store \<Rightarrow> response \<times> store) \<Rightarrow>
     request list \<Rightarrow> store \<Rightarrow> response list \<times> store" where
  "serve handler [] kv = ([], kv)"
| "serve handler (r # rs) kv =
     (let (w, kv1) = handler None None r kv;
          (ws, kv2) = serve handler rs kv1
      in (w # ws, kv2))"

text \<open>The successful JSON reply of the second copy's handler.\<close>

definition json_reply :: "json \<Rightarrow> UserResponse \<Rightarrow> response" where
  "json_reply js response =
     Fprint (Encode_response js response)
       (Header_Set ''Content-Type'' ''application/json''
          (Header_Set ''Access-Control-Allow-Origin'' ''*'' new_response))"

text \<open>A successful plain-text reply of the first copy's handler.\<close>

definition text_reply :: "string \<Rightarrow> response" where
  "text_reply s = Fprint s (Header_Set ''Access-Control-Allow-Origin'' ''*'' new_response)"

section \<open>Sample instances\<close>

text \<open>
  A sample of the library's behaviour, for evaluating the program on concrete inputs:
  records are written as \<^verbatim>\<open>encoding/json\<close> writes them, and the decoders know a finite
  table of texts.
\<close>

definition enc_state :: "GameState \<Rightarrow> string" where
  \<open>enc_state g = ''{"username":"'' @ Username g @ ''","score":'' @ Itoa (Score g) @ ''}''\<close>

definition known_states :: "GameState list" where
  "known_states =
     [\<lparr>Username = ''alice'', Score = 0\<rparr>, \<lparr>Username = ''alice'', Score = 5\<rparr>,
      \<lparr>Username = ''alice'', Score = 10\<rparr>, \<lparr>Username = ''alice'', Score = 30\<rparr>,
      \<lparr>Username = ''bob'', Score = 10\<rparr>, \<lparr>Username = ''bob'', Score = 20\<rparr>]"

definition dec_state :: "string \<Rightarrow> error + GameState" where
  "dec_state s =
     (case map_of (map (\<lambda>g. (enc_state g, g)) known_states) s of
        Some g \<Rightarrow> Inr g
      | None \<Rightarrow> Inl (JsonError ''unexpected end of JSON input''))"

definition hello_frame :: string where
  \<open>hello_frame = ''{"hello":1}''\<close>

definition known_frames :: "(string \<times> (string \<times> jvalue) list) list" where
  \<open>known_frames =
     [(''{"type":"subscribe","channel":"leaderboard_updates"}'',
        [(''type'', JString ''subscribe''), (''channel'', JString ''leaderboard_updates'')]),
      (''{"type":"update","value":{"username":"alice","score":30}}'',
        [(''type'', JString ''update''),
         (''value'', JObject [(''username'', JString ''alice''), (''score'', JNumber 30)])]),
      (hello_frame, [(''hello'', JNumber 1)])]\<close>

definition dec_data :: "string \<Rightarrow> error + (string \<times> jvalue) list" where
  "dec_data s =
     (case map_of known_frames s of
        Some d \<Rightarrow> Inr d
      | None \<Rightarrow> Inl (JsonError ''invalid character''))"

definition enc_response :: "UserResponse \<Rightarrow> string" where
  \<open>enc_response r =
     ''{"Username":"'' @ resp_Username r @ ''","Score":'' @ Itoa (resp_Score r) @
     '',"State":"'' @ resp_State r @ ''"}'' @ [CHR 0x0A]\<close>

definition sample_json :: json where
  \<open>sample_json =
     \<lparr>Marshal_state = (\<lambda>g. Inr (enc_state g)),
      Marshal_update = (\<lambda>g. Inr (''{"type":"DataUpdated","value":'' @ enc_state g @ ''}'')),
      Marshal_confirm = Inr ''{"type":"subscription_confirmed"}'',
      Unmarshal_state = dec_state,
      Decode_state = dec_state,
      Unmarshal_data = dec_data,
      Encode_response = enc_response,
      float_to_int = (\<lambda>x. if x < 0 then \<lceil>x\<rceil> else \<lfloor>x\<rfloor>)\<rparr>\<close>

text \<open>Player records of the samples.\<close>

definition alice :: "int \<Rightarrow> GameState" where
  "alice n = \<lparr>Username = ''alice'', Score = n\<rparr>"

definition bob :: "int \<Rightarrow> GameState" where
  "bob n = \<lparr>Username = ''bob'', Score = n\<rparr>"

text \<open>
  Three subscribers 1, 2 and 3; the write to subscriber 2 fails; the runtime produces the
  keys in the order 3, 1, 2.
\<close>

definition three_subscribers :: world where
  "three_subscribers =
     \<lparr>redis = Map.empty,
      leaderboardSubscribers = [1 \<mapsto> True, 2 \<mapsto> True, 3 \<mapsto> True],
      written = [],
      closed = {}\<rparr>"

definition second_write_fails :: outcomes where
  "second_write_fails =
     \<lparr>set_err = None,
      write_err = (\<lambda>c. if c = 2 then Some (ConnError ''broken pipe'') else None),
      range_order = [3, 1, 2]\<rparr>"

definition store_down :: outcomes where
  "store_down =
     \<lparr>set_err = Some (StoreError ''i/o timeout''),
      write_err = (\<lambda>c. None),
      range_order = [3, 1, 2]\<rparr>"

text \<open>
  A store of two players whose scan takes two pages: cursor 0 gives the first page and
  the cursor 7, cursor 7 gives the second page and the cursor 0.
\<close>

definition two_pages :: client where
  "two_pages =
     \<lparr>Scan_reply =
        (\<lambda>n c. if c = 0 then Inr ([''user:alice''], 7)
               else if c = 7 then Inr ([''user:bob''], 0)
               else Inr ([], 0)),
      Get_fault = (\<lambda>key. None),
      keyspace = [''user:alice'' \<mapsto> enc_state (alice 10), ''user:bob'' \<mapsto> enc_state (bob 20)]\<rparr>"

text \<open>A store whose scan gives all its keys in one page, in the order \<open>keys\<close>.\<close>

definition one_page :: "string list \<Rightarrow> store \<Rightarrow> client" where
  "one_page keys kv =
     \<lparr>Scan_reply = (\<lambda>n c. Inr (keys, 0)),
      Get_fault = (\<lambda>key. None),
      keyspace = kv\<rparr>"

definition tied_players :: store where
  "tied_players = [''user:alice'' \<mapsto> enc_state (alice 10), ''user:bob'' \<mapsto> enc_state (bob 10)]"

definition ranked_players :: store where
  "ranked_players = [''user:alice'' \<mapsto> enc_state (alice 10), ''user:bob'' \<mapsto> enc_state (bob 20)]"

text \<open>
  A store whose first fetch gives a page and a cursor, and whose second fetch fails; and
  a store with a value that is not a player record.
\<close>

definition second_fetch_fails :: client where
  "second_fetch_fails =
     \<lparr>Scan_reply =
        (\<lambda>n c. if n = 0 then Inr ([''user:alice'', ''session:42''], 7)
               else Inl (StoreError ''connection reset'')),
      Get_fault = (\<lambda>key. None),
      keyspace = [''user:alice'' \<mapsto> enc_state (alice 10), ''session:42'' \<mapsto> ''x'']\<rparr>"

definition corrupt_record :: client where
  "corrupt_record =
     one_page [''user:alice'', ''user:carol'', ''user:bob'']
       [''user:alice'' \<mapsto> enc_state (alice 10), ''user:carol'' \<mapsto> ''garbage'',
        ''user:bob'' \<mapsto> enc_state (bob 20)]"

text \<open>Requests to add alice, with the score the request supplies.\<close>

definition add_alice :: "int \<Rightarrow> request" where
  "add_alice n = \<lparr>req_Method = ''POST'', req_Body = enc_state (alice n)\<rparr>"

section \<open>Facts about the samples\<close>

lemma sample_codec:
  "Unmarshal_state sample_json = dec_state"
  "Decode_state sample_json = dec_state"
  "Marshal_state sample_json g = Inr (enc_state g)"
  by (simp_all add: sample_json_def)

lemma dec_alice0: "dec_state (enc_state (alice 0)) = Inr (alice 0)"
  by code_simp

lemma dec_alice5: "dec_state (enc_state (alice 5)) = Inr (alice 5)"
  by code_simp

lemma dec_alice10: "dec_state (enc_state (alice 10)) = Inr (alice 10)"
  by code_simp

lemma dec_alice30: "dec_state (enc_state (alice 30)) = Inr (alice 30)"
  by code_simp

lemma dec_bob10: "dec_state (enc_state (bob 10)) = Inr (bob 10)"
  by code_simp

lemma dec_bob20: "dec_state (enc_state (bob 20)) = Inr (bob 20)"
  by code_simp

lemma dec_garbage: "dec_state ''garbage'' = Inl (JsonError ''unexpected end of JSON input'')"
  by code_simp

section \<open>The broadcast\<close>

text \<open>
  The loop over the subscribers, in closed form: when the runtime produces registered
  connections, each once, every one of them gets one write, and those whose write failed
  are gone from the registry afterwards.
\<close>

lemma broadcast_result:
  "distinct cs \<Longrightarrow> set cs \<subseteq> dom (leaderboardSubscribers w) \<Longrightarrow>
   broadcast wr m cs w =
     w\<lparr>written := written w @ map (\<lambda>c. (c, m)) cs,
       leaderboardSubscribers :=
         (\<lambda>c. if c \<in> set cs \<and> wr c \<noteq> None then None else leaderboardSubscribers w c)\<rparr>"
proof (induction cs arbitrary: w)
  case Nil
  then show ?case by simp
next
  case (Cons c cs)
  from Cons.prems have reg: "leaderboardSubscribers w c \<noteq> None" by auto
  from Cons.prems have d: "distinct cs" and notin: "c \<notin> set cs" by auto
  show ?case
  proof (cases "wr c")
    case None
    let ?w1 = "w\<lparr>written := written w @ [(c, m)]\<rparr>"
    have sub: "set cs \<subseteq> dom (leaderboardSubscribers ?w1)" using Cons.prems by auto
    show ?thesis using reg None Cons.IH [OF d sub]
      by (auto simp: fun_eq_iff)
  next
    case (Some e)
    let ?w2 = "w\<lparr>written := written w @ [(c, m)],
                  leaderboardSubscribers := (leaderboardSubscribers w)(c := None)\<rparr>"
    have sub: "set cs \<subseteq> dom (leaderboardSubscribers ?w2)" using Cons.prems notin by auto
    show ?thesis using reg Some notin Cons.IH [OF d sub]
      by (auto simp: fun_eq_iff)
  qed
qed

text \<open>
  C1. When the store write of \<^verbatim>\<open>updateScore\<close> succeeds and the range loop produces the
  registered handles (each once, in any order), \<^verbatim>\<open>updateScore\<close> returns nil; the writes
  it made are exactly one \<^verbatim>\<open>DataUpdated\<close> message to each registered handle, in the order
  of the loop; the store holds the new record; and the registry afterwards is the registry
  before without the handles whose write failed. A failed write stops nothing: the handles
  after it in the loop are written to all the same.
\<close>

theorem updateScore_fan_out:
  assumes "Marshal_state js \<lparr>Username = username, Score = newScore\<rparr> = Inr gameStateJSON"
    and "set_err oc = None"
    and "Marshal_update js \<lparr>Username = username, Score = newScore\<rparr> = Inr messageJSON"
    and "distinct (range_order oc)"
    and "set (range_order oc) = dom (leaderboardSubscribers w)"
  shows "updateScore js oc username newScore w =
           (None,
            w\<lparr>redis := (redis w)(''user:'' @ username \<mapsto> gameStateJSON),
              written :=
                written w @ map (\<lambda>subscriber. (subscriber, messageJSON)) (range_order oc),
              leaderboardSubscribers :=
                (\<lambda>subscriber. if write_err oc subscriber = None
                               then leaderboardSubscribers w subscriber else None)\<rparr>)"
proof -
  let ?w1 = "w\<lparr>redis := (redis w)(''user:'' @ username \<mapsto> gameStateJSON)\<rparr>"
  have sub: "set (range_order oc) \<subseteq> dom (leaderboardSubscribers ?w1)"
    using assms(5) by simp
  have "broadcast (write_err oc) messageJSON (range_order oc) ?w1 =
      ?w1\<lparr>written := written ?w1 @ map (\<lambda>c. (c, messageJSON)) (range_order oc),
       leaderboardSubscribers :=
         (\<lambda>c. if c \<in> set (range_order oc) \<and> write_err oc c \<noteq> None then None
               else leaderboardSubscribers ?w1 c)\<rparr>"
    by (rule broadcast_result [OF assms(4) sub])
  moreover have "(\<lambda>c. if c \<in> set (range_order oc) \<and> write_err oc c \<noteq> None then None
               else leaderboardSubscribers ?w1 c) =
     (\<lambda>subscriber. if write_err oc subscriber = None
                               then leaderboardSubscribers w subscriber else None)"
    using assms(5) by (auto simp: fun_eq_iff)
  ultimately show ?thesis using assms(1-3)
    by (simp add: updateScore_def redis_Set_def)
qed

text \<open>
  Three subscribers, the write to subscriber 2 failing: the update returns nil, the three
  are written to in the order of the loop, and subscribers 1 and 3 stay registered.
\<close>

theorem updateScore_fan_out_witness:
  "fst (updateScore sample_json second_write_fails ''alice'' 30 three_subscribers) = None \<and>
   map fst (written (snd (updateScore sample_json second_write_fails ''alice'' 30
                            three_subscribers))) = [3, 1, 2] \<and>
   dom (leaderboardSubscribers
          (snd (updateScore sample_json second_write_fails ''alice'' 30 three_subscribers))) =
     {1, 3}"
proof -
  have h1: "Marshal_state sample_json \<lparr>Username = ''alice'', Score = 30\<rparr> =
              Inr (enc_state (alice 30))"
    by (simp add: sample_codec alice_def)
  have h2: "set_err second_write_fails = None"
    by (simp add: second_write_fails_def)
  obtain m where h3: "Marshal_update sample_json \<lparr>Username = ''alice'', Score = 30\<rparr> = Inr m"
    by (simp add: sample_json_def)
  have h4: "distinct (range_order second_write_fails)"
    by (simp add: second_write_fails_def)
  have h5: "set (range_order second_write_fails) = dom (leaderboardSubscribers three_subscribers)"
    by (auto simp: second_write_fails_def three_subscribers_def)
  show ?thesis using updateScore_fan_out [OF h1 h2 h3 h4 h5]
    by (auto simp: second_write_fails_def three_subscribers_def dom_def)
qed

text \<open>
  C6. When the \<^verbatim>\<open>client.Set\<close> of \<^verbatim>\<open>updateScore\<close> fails, \<^verbatim>\<open>updateScore\<close> returns that
  error and leaves everything as it was: nothing is written to any subscriber, no
  subscriber is removed, and the store is unchanged.
\<close>

theorem updateScore_store_failure:
  assumes "Marshal_state js \<lparr>Username = username, Score = newScore\<rparr> = Inr gameStateJSON"
    and "redis_Set (set_err oc) (redis w) (''user:'' @ username) gameStateJSON = Inl e"
  shows "updateScore js oc username newScore w = (Some e, w)"
  using assms by (simp add: updateScore_def)

text \<open>With the store down, the update of alice's score returns the store's error.\<close>

theorem updateScore_store_failure_witness:
  "updateScore sample_json store_down ''alice'' 30 three_subscribers =
     (Some (StoreError ''i/o timeout''), three_subscribers)"
proof -
  have h1: "Marshal_state sample_json \<lparr>Username = ''alice'', Score = 30\<rparr> =
              Inr (enc_state (alice 30))"
    by (simp add: sample_codec alice_def)
  have h2: "redis_Set (set_err store_down) (redis three_subscribers) (''user:'' @ ''alice'')
              (enc_state (alice 30)) = Inl (StoreError ''i/o timeout'')"
    by (simp add: store_down_def redis_Set_def)
  show ?thesis using updateScore_store_failure [OF h1 h2] by simp
qed

section \<open>The scan\<close>

lemma length_Split: "length (Split s sep) = Suc (count_list s sep)"
proof (induction s)
  case Nil
  then show ?case by simp
next
  case (Cons c cs)
  have "length (tl (Split cs sep)) = count_list cs sep"
    using Cons.IH by simp
  then show ?case using Cons.IH by (simp add: Let_def)
qed

text \<open>
  The key of a player passes the test of the inner loop exactly when the username has no
  \<^verbatim>\<open>":"\<close> in it.
\<close>

lemma player_key_test:
  "HasPrefix (''user:'' @ u) ''user:'' \<and>
   (length (Split (''user:'' @ u) CHR '':'') = 2 \<longleftrightarrow> CHR '':'' \<notin> set u)"
  by (simp add: HasPrefix_def length_Split count_list_0_iff)

text \<open>A page that lists the keys of stored, decodable records appends those records.\<close>

lemma scan_page_all:
  assumes "\<forall>g\<in>set recs. CHR '':'' \<notin> set (Username g) \<and>
            Get_fault cl (''user:'' @ Username g) = None \<and>
            (\<exists>v. keyspace cl (''user:'' @ Username g) = Some v \<and> Unmarshal_state js v = Inr g)"
  shows "scan_page js cl (map (\<lambda>g. ''user:'' @ Username g) recs) players = Inr (players @ recs)"
  using assms
proof (induction recs arbitrary: players)
  case Nil
  then show ?case by simp
next
  case (Cons g gs)
  from Cons.prems obtain v where
    c: "CHR '':'' \<notin> set (Username g)" and f: "Get_fault cl (''user:'' @ Username g) = None"
    and v: "keyspace cl (''user:'' @ Username g) = Some v" and u: "Unmarshal_state js v = Inr g"
    by auto
  have rest: "scan_page js cl (map (\<lambda>g. ''user:'' @ Username g) gs) (players @ [g]) =
                Inr ((players @ [g]) @ gs)"
    using Cons.IH [of "players @ [g]"] Cons.prems by simp
  have k1: "HasPrefix (''user:'' @ Username g) ''user:''"
    using player_key_test by blast
  have k2: "length (Split (''user:'' @ Username g) CHR '':'') = 2"
    using player_key_test c by blast
  have "scan_page js cl ((''user:'' @ Username g) # map (\<lambda>g. ''user:'' @ Username g) gs) players =
        scan_page js cl (map (\<lambda>g. ''user:'' @ Username g) gs) (players @ [g])"
    using k1 k2 f v u by (simp add: redis_Get_def Val_def del: Split.simps append.simps)
  then show ?case using rest by simp
qed

text \<open>A page without a corrupt key is scanned to its end.\<close>

lemma scan_page_clean:
  "find (corrupt js cl) keys = None \<Longrightarrow> \<exists>players'. scan_page js cl keys players = Inr players'"
proof (induction keys arbitrary: players)
  case Nil
  then show ?case by simp
next
  case (Cons key keys)
  then have ok: "\<not> corrupt js cl key" and rest: "find (corrupt js cl) keys = None"
    by (auto split: if_splits)
  show ?case
  proof (cases "is_player_key key")
    case False
    then show ?thesis using Cons.IH [OF rest, of players]
      by (auto simp: is_player_key_def simp del: Split.simps)
  next
    case True
    with ok obtain g where "fetch_decode js cl key = Inr g"
      by (cases "fetch_decode js cl key") (auto simp: corrupt_def)
    then show ?thesis using True Cons.IH [OF rest, of "players @ [g]"]
      by (auto simp: is_player_key_def fetch_decode_def simp del: Split.simps)
  qed
qed

text \<open>The first corrupt key of a page ends the scan with its decoding error.\<close>

lemma scan_page_corrupt:
  "find (corrupt js cl) keys = Some key \<Longrightarrow> fetch_decode js cl key = Inl e \<Longrightarrow>
   scan_page js cl keys players = Inl e"
proof (induction keys arbitrary: players)
  case Nil
  then show ?case by simp
next
  case (Cons k keys)
  show ?case
  proof (cases "corrupt js cl k")
    case True
    with Cons.prems have "k = key" by simp
    then show ?thesis using True Cons.prems(2)
      by (simp add: corrupt_def is_player_key_def fetch_decode_def del: Split.simps)
  next
    case False
    with Cons.prems have rest: "find (corrupt js cl) keys = Some key" by simp
    show ?thesis
    proof (cases "is_player_key k")
      case no: False
      then show ?thesis using Cons.IH [OF rest Cons.prems(2), of players]
        by (auto simp: is_player_key_def simp del: Split.simps)
    next
      case yes: True
      with False obtain g where "fetch_decode js cl k = Inr g"
        by (cases "fetch_decode js cl k") (auto simp: corrupt_def)
      then show ?thesis using yes Cons.IH [OF rest Cons.prems(2), of "players @ [g]"]
        by (auto simp: is_player_key_def fetch_decode_def simp del: Split.simps)
    qed
  qed
qed

subsection \<open>The insertion sort sorts\<close>

lemma mset_sift: "mset (sift lt x ys) = add_mset x (mset ys)"
  by (induction ys) auto

lemma set_sift: "set (sift lt x ys) = insert x (set ys)"
  by (induction ys) auto

lemma sorted_sift:
  "sorted_wrt (\<lambda>a b. Score a \<le> Score b) ys \<Longrightarrow>
   sorted_wrt (\<lambda>a b. Score a \<le> Score b) (sift by_score x ys)"
  by (induction ys) (auto simp: set_sift by_score_def)

lemma foldl_sift:
  "mset (foldl (\<lambda>acc x. sift by_score x acc) acc xs) = mset acc + mset xs \<and>
   (sorted_wrt (\<lambda>a b. Score a \<le> Score b) acc \<longrightarrow>
    sorted_wrt (\<lambda>a b. Score a \<le> Score b) (foldl (\<lambda>acc x. sift by_score x acc) acc xs))"
  by (induction xs arbitrary: acc) (auto simp: mset_sift sorted_sift)

lemma insertionSort_sorts: "sorts_by_score insertionSort"
  unfolding sorts_by_score_def insertionSort_def
  using foldl_sift [of "[]"]
  by (auto simp: sorted_wrt_rev by_score_def not_less)

subsection \<open>The pagination\<close>

lemma two_pages_loop:
  "getAllPlayers_loop sample_json two_pages fuel 0 calls players =
     (calls @ replicate fuel 0, None)"
proof (induction fuel arbitrary: calls players)
  case 0
  then show ?case by simp
next
  case (Suc fuel)
  have page: "scan_page sample_json two_pages [''user:alice''] players =
                Inr (players @ [alice 10])"
    using dec_alice10
    by (simp add: two_pages_def HasPrefix_def Let_def redis_Get_def Val_def sample_codec)
  have "replicate fuel (0::64 word) @ [0] = 0 # replicate fuel 0"
    by (metis replicate_append_same)
  then show ?case using page Suc.IH [of "calls @ [0]" "players @ [alice 10]"]
    by (simp add: two_pages_def)
qed

text \<open>
  C2. On a store of two players whose scan takes two pages, \<^verbatim>\<open>getAllPlayers\<close> passes the
  cursor 0 to every \<^verbatim>\<open>Scan\<close>, not the cursor 7 that the fetch before returned, and has not
  returned after any number of iterations: it fetches the first page again and again. The
  claim that each fetch after the first passes the cursor of the fetch before it, and that
  the scan ends on every finite store, fails here.
\<close>

theorem getAllPlayers_refetches_first_page:
  "getAllPlayers sample_json srt two_pages fuel = (replicate fuel 0, None)"
  using two_pages_loop [of fuel "[]" "[]"] by (simp add: getAllPlayers_def)

text \<open>
  C3, as amended. When the first fetch gives the keys of the stored players in one page
  (the cursor it returns is 0), each key once, every username without \<^verbatim>\<open>":"\<close>, and every
  value fetched and decoded to its record, \<^verbatim>\<open>getAllPlayers\<close> returns after that one fetch
  with no error and with what \<^verbatim>\<open>sort.Slice\<close> makes of the records in the order of the
  page: the same records, as many as were stored, in descending order of score. The order
  of records with equal scores is whatever \<^verbatim>\<open>sort.Slice\<close> leaves; no second key decides
  it.
\<close>

theorem getAllPlayers_single_page:
  assumes "Scan_reply cl 0 0 = Inr (map (\<lambda>g. ''user:'' @ Username g) recs, 0)"
    and "distinct (map Username recs)"
    and "\<forall>g\<in>set recs. CHR '':'' \<notin> set (Username g) \<and>
            Get_fault cl (''user:'' @ Username g) = None \<and>
            (\<exists>v. keyspace cl (''user:'' @ Username g) = Some v \<and> Unmarshal_state js v = Inr g)"
    and "sorts_by_score srt"
  shows "getAllPlayers js srt cl (Suc fuel) = ([0], Some (srt by_score recs, None)) \<and>
         mset (srt by_score recs) = mset recs \<and>
         length (srt by_score recs) = length recs \<and>
         sorted_wrt (\<lambda>a b. Score b \<le> Score a) (srt by_score recs)"
proof -
  have page: "scan_page js cl (map (\<lambda>g. ''user:'' @ Username g) recs) [] = Inr recs"
    using scan_page_all [OF assms(3), of "[]"] by simp
  have run: "getAllPlayers js srt cl (Suc fuel) = ([0], Some (srt by_score recs, None))"
    using assms(1) page by (simp add: getAllPlayers_def)
  have m: "mset (srt by_score recs) = mset recs"
    using assms(4) by (simp add: sorts_by_score_def)
  have l: "length (srt by_score recs) = length recs"
    using m by (metis size_mset)
  have s: "sorted_wrt (\<lambda>a b. Score b \<le> Score a) (srt by_score recs)"
    using assms(4) by (simp add: sorts_by_score_def by_score_def not_less)
  show ?thesis using run m l s by simp
qed

text \<open>Alice with 10 and bob with 20, listed in one page: bob comes first.\<close>

theorem getAllPlayers_single_page_witness:
  "getAllPlayers sample_json insertionSort
     (one_page [''user:alice'', ''user:bob''] ranked_players) 1 =
   ([0], Some ([bob 20, alice 10], None))"
proof -
  let ?cl = "one_page [''user:alice'', ''user:bob''] ranked_players"
  have h1: "Scan_reply ?cl 0 0 = Inr (map (\<lambda>g. ''user:'' @ Username g) [alice 10, bob 20], 0)"
    by (simp add: one_page_def alice_def bob_def)
  have h2: "distinct (map Username [alice 10, bob 20])"
    by (simp add: alice_def bob_def)
  have h3: "\<forall>g\<in>set [alice 10, bob 20]. CHR '':'' \<notin> set (Username g) \<and>
            Get_fault ?cl (''user:'' @ Username g) = None \<and>
            (\<exists>v. keyspace ?cl (''user:'' @ Username g) = Some v \<and>
                 Unmarshal_state sample_json v = Inr g)"
    using dec_alice10 dec_bob20
    by (simp add: one_page_def ranked_players_def sample_codec) (simp add: alice_def bob_def)
  have srt: "insertionSort by_score [alice 10, bob 20] = [bob 20, alice 10]"
    by (simp add: insertionSort_def by_score_def alice_def bob_def)
  show ?thesis
    using getAllPlayers_single_page [OF h1 h2 h3 insertionSort_sorts, of 0] srt by simp
qed

text \<open>
  C3 as stated fails: the same two records, alice and bob both with 10, come back in the
  order in which the scan lists their keys, so no key of the records breaks the tie.
\<close>

theorem getAllPlayers_ties_follow_scan_order:
  "getAllPlayers sample_json insertionSort
     (one_page [''user:alice'', ''user:bob''] tied_players) 1 =
     ([0], Some ([alice 10, bob 10], None)) \<and>
   getAllPlayers sample_json insertionSort
     (one_page [''user:bob'', ''user:alice''] tied_players) 1 =
     ([0], Some ([bob 10, alice 10], None))"
  using dec_alice10 dec_bob10
  by (simp add: getAllPlayers_def one_page_def tied_players_def HasPrefix_def Let_def
      redis_Get_def Val_def sample_codec insertionSort_def by_score_def)
     (simp add: alice_def bob_def)

subsection \<open>Failing fast\<close>

lemma loop_fail_fast:
  assumes "\<forall>i. length calls \<le> i \<and> i < k \<longrightarrow> fetch_continues js cl i"
    and "fetch_fails js cl k e"
    and "length calls \<le> k"
    and "k - length calls < fuel"
  shows "getAllPlayers_loop js cl fuel 0 calls players =
           (calls @ replicate (Suc k - length calls) 0, Some (Inl e))"
  using assms
proof (induction fuel arbitrary: calls players)
  case 0
  then show ?case by simp
next
  case (Suc fuel)
  show ?case
  proof (cases "length calls = k")
    case True
    show ?thesis
    proof (cases "Scan_reply cl k 0")
      case (Inl e')
      then show ?thesis using True Suc.prems(2) by (simp add: fetch_fails_def)
    next
      case (Inr p)
      obtain keys c where p: "p = (keys, c)" by (cases p)
      with Inr Suc.prems(2) obtain key where
        "find (corrupt js cl) keys = Some key" "fetch_decode js cl key = Inl e"
        by (auto simp: fetch_fails_def split: option.splits)
      then have "scan_page js cl keys players = Inl e" by (rule scan_page_corrupt)
      then show ?thesis using True Inr p by simp
    qed
  next
    case False
    with Suc.prems have lt: "length calls < k" by simp
    with Suc.prems(1) have "fetch_continues js cl (length calls)" by simp
    then obtain keys c where sc: "Scan_reply cl (length calls) 0 = Inr (keys, c)"
      and c: "c \<noteq> 0" and dec: "find (corrupt js cl) keys = None"
      by (auto simp: fetch_continues_def split: sum.splits)
    from scan_page_clean [OF dec] obtain players'
      where pg: "scan_page js cl keys players = Inr players'"
      by blast
    have ih: "getAllPlayers_loop js cl fuel 0 (calls @ [0]) players' =
        ((calls @ [0]) @ replicate (Suc k - length (calls @ [0])) 0, Some (Inl e))"
      using Suc.prems lt by (intro Suc.IH) auto
    have "Suc k - length calls = Suc (k - length calls)" using lt by simp
    then show ?thesis using sc c pg ih by simp
  qed
qed

text \<open>
  C7. When the fetches before the \<open>k\<close>-th let the scan go on and the \<open>k\<close>-th fetch fails
  with \<open>e\<close> (the store answers the error \<open>e\<close>, or the value of a key with the \<^verbatim>\<open>"user:"\<close>
  prefix and one separator fails to decode with \<open>e\<close>), \<^verbatim>\<open>getAllPlayers\<close> returns after
  that fetch with the error \<open>e\<close> and a nil slice: none of the records gathered so far.
\<close>

theorem getAllPlayers_fail_fast:
  assumes "\<forall>i<k. fetch_continues js cl i"
    and "fetch_fails js cl k e"
    and "k < fuel"
  shows "getAllPlayers js srt cl fuel = (replicate (Suc k) 0, Some ([], Some e))"
  using loop_fail_fast [of "[]" k js cl e fuel "[]"] assms
  by (simp add: getAllPlayers_def)

text \<open>
  A store whose second fetch fails, after a first page with a player: the store's error
  and no player. A store with a value that is no player record, after a player that
  decodes: the decoding error and no player.
\<close>

theorem getAllPlayers_fail_fast_witness:
  "getAllPlayers sample_json insertionSort second_fetch_fails 2 =
     ([0, 0], Some ([], Some (StoreError ''connection reset''))) \<and>
   getAllPlayers sample_json insertionSort corrupt_record 1 =
     ([0], Some ([], Some (JsonError ''unexpected end of JSON input'')))"
proof -
  have a0: "is_player_key ''user:alice''" "\<not> is_player_key ''session:42''"
    "is_player_key ''user:carol''"
    by (simp_all add: is_player_key_def HasPrefix_def Let_def)
  have a1: "fetch_decode sample_json second_fetch_fails ''user:alice'' = Inr (alice 10)"
    using dec_alice10
    by (simp add: fetch_decode_def second_fetch_fails_def redis_Get_def Val_def sample_codec)
  have sr: "Scan_reply second_fetch_fails 0 0 = Inr ([''user:alice'', ''session:42''], 7)"
    by (simp add: second_fetch_fails_def)
  have a2: "\<forall>i<1. fetch_continues sample_json second_fetch_fails i"
    using sr a0 a1 by (simp add: fetch_continues_def corrupt_def)
  have a3: "fetch_fails sample_json second_fetch_fails 1 (StoreError ''connection reset'')"
    by (simp add: fetch_fails_def second_fetch_fails_def)
  have b1: "fetch_decode sample_json corrupt_record ''user:alice'' = Inr (alice 10)"
    using dec_alice10
    by (simp add: fetch_decode_def corrupt_record_def one_page_def redis_Get_def Val_def
        sample_codec)
  have b2: "fetch_decode sample_json corrupt_record ''user:carol'' =
              Inl (JsonError ''unexpected end of JSON input'')"
    using dec_garbage
    by (simp add: fetch_decode_def corrupt_record_def one_page_def redis_Get_def Val_def
        sample_codec)
  have b3: "\<forall>i<0. fetch_continues sample_json corrupt_record i" by simp
  have sc: "Scan_reply corrupt_record 0 0 =
              Inr ([''user:alice'', ''user:carol'', ''user:bob''], 0)"
    by (simp add: corrupt_record_def one_page_def)
  have b4: "fetch_fails sample_json corrupt_record 0
              (JsonError ''unexpected end of JSON input'')"
    using sc a0 b1 b2 by (simp add: fetch_fails_def corrupt_def)
  show ?thesis
    using getAllPlayers_fail_fast [OF a2 a3, of 2 insertionSort]
      getAllPlayers_fail_fast [OF b3 b4, of 1 insertionSort]
    by (simp add: numeral_2_eq_2)
qed

section \<open>The connection loop\<close>

lemma read_errors_loop:
  "handleWebSocket_loop js ws (map (\<lambda>(e, oc). (ReadError e, oc)) failures) w = (Continue, w)"
  by (induction failures) (auto simp: handleWebSocket_body_def)

text \<open>
  C4. After the upgrade, however many reads of the connection fail, \<^verbatim>\<open>handleWebSocket\<close>
  is still in its loop, about to read again; the handle is still in the registry and
  \<^verbatim>\<open>Close\<close> has not run. The claim that a failed read ends the loop, removes the handle and
  releases the connection fails on the code.
\<close>

theorem handleWebSocket_read_error_retries:
  "handleWebSocket js (Inr ws) (map (\<lambda>(e, oc). (ReadError e, oc)) failures) w =
     (Continue, w\<lparr>leaderboardSubscribers := (leaderboardSubscribers w)(ws \<mapsto> True)\<rparr>)"
  by (simp add: handleWebSocket_def read_errors_loop)

text \<open>
  C8. A frame whose payload does not decode as a JSON object, or decodes to an object
  whose \<^verbatim>\<open>type\<close> is neither \<^verbatim>\<open>"subscribe"\<close> nor \<^verbatim>\<open>"update"\<close>, leaves the state as it was
  (no frame written, the store and the registry unchanged, no connection closed), and the
  loop goes on with the next read.
\<close>

theorem handleWebSocket_discards_malformed:
  assumes "Unmarshal_data js message = Inl e \<or>
           (Unmarshal_data js message = Inr data \<and>
            map_of data ''type'' \<noteq> Some (JString ''subscribe'') \<and>
            map_of data ''type'' \<noteq> Some (JString ''update''))"
  shows "handleWebSocket_body js oc ws (Message messageType message) w = (Continue, w) \<and>
         handleWebSocket_loop js ws ((Message messageType message, oc) # reads) w =
           handleWebSocket_loop js ws reads w"
proof -
  have "handleWebSocket_body js oc ws (Message messageType message) w = (Continue, w)"
    using assms by (auto simp: handleWebSocket_body_def)
  then show ?thesis by simp
qed

text \<open>A text frame that is not JSON, and one that is a JSON object without a type.\<close>

theorem handleWebSocket_discards_malformed_witness:
  "handleWebSocket_body sample_json second_write_fails 1 (Message TextMessage ''not json'')
     three_subscribers = (Continue, three_subscribers) \<and>
   handleWebSocket_body sample_json second_write_fails 1 (Message TextMessage hello_frame)
     three_subscribers = (Continue, three_subscribers)"
proof -
  have a: "Unmarshal_data sample_json ''not json'' = Inl (JsonError ''invalid character'')"
    by (simp add: sample_json_def) code_simp
  have b: "Unmarshal_data sample_json hello_frame = Inr [(''hello'', JNumber 1)]"
    by (simp add: sample_json_def) code_simp
  have c: "Unmarshal_data sample_json hello_frame = Inl (JsonError []) \<or>
           (Unmarshal_data sample_json hello_frame = Inr [(''hello'', JNumber 1)] \<and>
            map_of [(''hello'', JNumber 1)] ''type'' \<noteq> Some (JString ''subscribe'') \<and>
            map_of [(''hello'', JNumber 1)] ''type'' \<noteq> Some (JString ''update''))"
    using b by simp
  show ?thesis
    using handleWebSocket_discards_malformed [of sample_json "''not json''", OF disjI1, OF a]
      handleWebSocket_discards_malformed [OF c]
    by simp
qed

section \<open>Adding a user\<close>

text \<open>The three ways through the handlers that answer with success.\<close>

lemma addUser_json_existing:
  assumes "req_Method r \<noteq> ''OPTIONS''"
    and "Decode_state js (req_Body r) = Inr \<lparr>Username = u, Score = s\<rparr>"
    and "kv (''user:'' @ u) = Some stored"
    and "Unmarshal_state js stored = Inr \<lparr>Username = u, Score = n\<rparr>"
  shows "addUser_json js None None r kv =
           (json_reply js
              \<lparr>resp_Username = u, resp_Score = n, resp_State = ''already exists''\<rparr>, kv)"
  using assms by (simp add: addUser_json_def redis_Get_def json_reply_def)

lemma addUser_json_new:
  assumes "req_Method r \<noteq> ''OPTIONS''"
    and "Decode_state js (req_Body r) = Inr user"
    and "redis_Get get_fault kv (''user:'' @ Username user) = Inl err"
    and "Marshal_state js (user\<lparr>Score := 0\<rparr>) = Inr fresh"
  shows "addUser_json js get_fault None r kv =
           (json_reply js
              \<lparr>resp_Username = Username user, resp_Score = 0, resp_State = ''newly added''\<rparr>,
            kv(''user:'' @ Username user \<mapsto> fresh))"
  using assms by (simp add: addUser_json_def redis_Set_def json_reply_def)

lemma addUser_text_new:
  assumes "req_Method r \<noteq> ''OPTIONS''"
    and "Decode_state js (req_Body r) = Inr user"
    and "redis_Get get_fault kv (''user:'' @ Username user) = Inl err"
    and "Marshal_state js user = Inr fresh"
  shows "addUser_text js get_fault None r kv =
           (text_reply (''User '' @ Username user @ '' added successfully!''),
            kv(''user:'' @ Username user \<mapsto> fresh))"
  using assms by (simp add: addUser_text_def redis_Set_def text_reply_def)

lemma serve_existing:
  assumes "\<forall>r\<in>set rs. req_Method r \<noteq> ''OPTIONS'' \<and>
            (\<exists>s. Decode_state js (req_Body r) = Inr \<lparr>Username = u, Score = s\<rparr>)"
    and "kv (''user:'' @ u) = Some stored"
    and "Unmarshal_state js stored = Inr \<lparr>Username = u, Score = n\<rparr>"
  shows "serve (addUser_json js) rs kv =
           (replicate (length rs)
              (json_reply js
                 \<lparr>resp_Username = u, resp_Score = n, resp_State = ''already exists''\<rparr>), kv)"
  using assms(1)
proof (induction rs)
  case Nil
  then show ?case by simp
next
  case (Cons r rs)
  then obtain s where "req_Method r \<noteq> ''OPTIONS''"
    "Decode_state js (req_Body r) = Inr \<lparr>Username = u, Score = s\<rparr>" by auto
  then have "addUser_json js None None r kv =
           (json_reply js
              \<lparr>resp_Username = u, resp_Score = n, resp_State = ''already exists''\<rparr>, kv)"
    using assms(2,3) by (rule addUser_json_existing)
  then show ?case using Cons by simp
qed

lemma addUser_text_existing:
  assumes "req_Method r \<noteq> ''OPTIONS''"
    and "Decode_state js (req_Body r) = Inr \<lparr>Username = u, Score = s\<rparr>"
    and "kv (''user:'' @ u) = Some stored"
    and "Unmarshal_state js stored = Inr \<lparr>Username = u, Score = n\<rparr>"
  shows "addUser_text js None None r kv =
           (text_reply (''User '' @ u @ '' already exists with a score of '' @ Itoa n), kv)"
  using assms by (simp add: addUser_text_def redis_Get_def text_reply_def)

lemma serve_text_existing:
  assumes "\<forall>r\<in>set rs. req_Method r \<noteq> ''OPTIONS'' \<and>
            (\<exists>s. Decode_state js (req_Body r) = Inr \<lparr>Username = u, Score = s\<rparr>)"
    and "kv (''user:'' @ u) = Some stored"
    and "Unmarshal_state js stored = Inr \<lparr>Username = u, Score = n\<rparr>"
  shows "serve (addUser_text js) rs kv =
           (replicate (length rs)
              (text_reply (''User '' @ u @ '' already exists with a score of '' @ Itoa n)), kv)"
  using assms(1)
proof (induction rs)
  case Nil
  then show ?case by simp
next
  case (Cons r rs)
  then obtain s where "req_Method r \<noteq> ''OPTIONS''"
    "Decode_state js (req_Body r) = Inr \<lparr>Username = u, Score = s\<rparr>" by auto
  then have "addUser_text js None None r kv =
           (text_reply (''User '' @ u @ '' already exists with a score of '' @ Itoa n), kv)"
    using assms(2,3) by (rule addUser_text_existing)
  then show ?case using Cons by simp
qed

text \<open>
  C5, as amended. With the store answering every call, on a store without a record for
  \<open>u\<close>, for any add-user requests for \<open>u\<close>, whatever scores they supply:
  \<^item> in the second copy (the one that replies with a \<^verbatim>\<open>UserResponse\<close>) the first request
    stores the record of \<open>u\<close> with the score 0 and is answered \<open>u\<close>, 0,
    \<^verbatim>\<open>"newly added"\<close>; every later request is answered \<open>u\<close>, 0, \<^verbatim>\<open>"already exists"\<close>;
  \<^item> in the first copy (the one that replies in plain text) the first request stores the
    record of \<open>u\<close> with the score \<open>s\<close> it supplies and is answered
    \<^verbatim>\<open>User u added successfully!\<close>; every later request is answered
    \<^verbatim>\<open>User u already exists with a score of s\<close>;
  \<^item> in both, the later requests leave the store as the first request left it, and the
    score they report is the one stored by the first.
\<close>

theorem addUser_idempotent:
  assumes "req_Method r \<noteq> ''OPTIONS''"
    and "Decode_state js (req_Body r) = Inr \<lparr>Username = u, Score = s\<rparr>"
    and "\<forall>r'\<in>set rs. req_Method r' \<noteq> ''OPTIONS'' \<and>
            (\<exists>s'. Decode_state js (req_Body r') = Inr \<lparr>Username = u, Score = s'\<rparr>)"
    and "kv (''user:'' @ u) = None"
    and "Marshal_state js \<lparr>Username = u, Score = 0\<rparr> = Inr stored0"
    and "Unmarshal_state js stored0 = Inr \<lparr>Username = u, Score = 0\<rparr>"
    and "Marshal_state js \<lparr>Username = u, Score = s\<rparr> = Inr stored"
    and "Unmarshal_state js stored = Inr \<lparr>Username = u, Score = s\<rparr>"
  shows "serve (addUser_json js) (r # rs) kv =
           (json_reply js \<lparr>resp_Username = u, resp_Score = 0, resp_State = ''newly added''\<rparr> #
            replicate (length rs)
              (json_reply js
                 \<lparr>resp_Username = u, resp_Score = 0, resp_State = ''already exists''\<rparr>),
            kv(''user:'' @ u \<mapsto> stored0)) \<and>
         serve (addUser_text js) (r # rs) kv =
           (text_reply (''User '' @ u @ '' added successfully!'') #
            replicate (length rs)
              (text_reply (''User '' @ u @ '' already exists with a score of '' @ Itoa s)),
            kv(''user:'' @ u \<mapsto> stored))"
proof -
  have absent: "redis_Get None kv (''user:'' @ Username \<lparr>Username = u, Score = s\<rparr>) =
                  Inl RedisNil"
    using assms(4) by (simp add: redis_Get_def)
  have first: "addUser_json js None None r kv =
      (json_reply js \<lparr>resp_Username = u, resp_Score = 0, resp_State = ''newly added''\<rparr>,
       kv(''user:'' @ u \<mapsto> stored0))"
    using addUser_json_new [OF assms(1,2) absent] assms(5) by simp
  have later: "serve (addUser_json js) rs (kv(''user:'' @ u \<mapsto> stored0)) =
      (replicate (length rs)
         (json_reply js
            \<lparr>resp_Username = u, resp_Score = 0, resp_State = ''already exists''\<rparr>),
       kv(''user:'' @ u \<mapsto> stored0))"
    using assms(3) _ assms(6) by (rule serve_existing) simp
  have first_text: "addUser_text js None None r kv =
      (text_reply (''User '' @ u @ '' added successfully!''), kv(''user:'' @ u \<mapsto> stored))"
    using addUser_text_new [OF assms(1,2) absent] assms(7) by simp
  have later_text: "serve (addUser_text js) rs (kv(''user:'' @ u \<mapsto> stored)) =
      (replicate (length rs)
         (text_reply (''User '' @ u @ '' already exists with a score of '' @ Itoa s)),
       kv(''user:'' @ u \<mapsto> stored))"
    using assms(3) _ assms(8) by (rule serve_text_existing) simp
  show ?thesis using first later first_text later_text by simp
qed

text \<open>
  Alice added three times, with the scores 5, 30 and 0: the second copy stores and
  reports 0, the first copy stores and reports 5.
\<close>

theorem addUser_idempotent_witness:
  "serve (addUser_json sample_json) [add_alice 5, add_alice 30, add_alice 0] Map.empty =
     ([json_reply sample_json
         \<lparr>resp_Username = ''alice'', resp_Score = 0, resp_State = ''newly added''\<rparr>,
       json_reply sample_json
         \<lparr>resp_Username = ''alice'', resp_Score = 0, resp_State = ''already exists''\<rparr>,
       json_reply sample_json
         \<lparr>resp_Username = ''alice'', resp_Score = 0, resp_State = ''already exists''\<rparr>],
      [''user:alice'' \<mapsto> enc_state (alice 0)]) \<and>
   serve (addUser_text sample_json) [add_alice 5, add_alice 30, add_alice 0] Map.empty =
     ([text_reply ''User alice added successfully!'',
       text_reply ''User alice already exists with a score of 5'',
       text_reply ''User alice already exists with a score of 5''],
      [''user:alice'' \<mapsto> enc_state (alice 5)])"
proof -
  have h1: "req_Method (add_alice 5) \<noteq> ''OPTIONS''"
    by (simp add: add_alice_def)
  have h2: "Decode_state sample_json (req_Body (add_alice 5)) =
              Inr \<lparr>Username = ''alice'', Score = 5\<rparr>"
    using dec_alice5 by (simp add: add_alice_def sample_codec alice_def)
  have h3: "\<forall>r'\<in>set [add_alice 30, add_alice 0]. req_Method r' \<noteq> ''OPTIONS'' \<and>
            (\<exists>s'. Decode_state sample_json (req_Body r') =
                     Inr \<lparr>Username = ''alice'', Score = s'\<rparr>)"
    using dec_alice30 dec_alice0 by (simp add: add_alice_def sample_codec alice_def)
  have h4: "(Map.empty :: store) (''user:'' @ ''alice'') = None"
    by simp
  have h5: "Marshal_state sample_json \<lparr>Username = ''alice'', Score = 0\<rparr> =
              Inr (enc_state (alice 0))"
    by (simp add: sample_codec alice_def)
  have h6: "Unmarshal_state sample_json (enc_state (alice 0)) =
              Inr \<lparr>Username = ''alice'', Score = 0\<rparr>"
    using dec_alice0 by (simp add: sample_codec alice_def)
  have h7: "Marshal_state sample_json \<lparr>Username = ''alice'', Score = 5\<rparr> =
              Inr (enc_state (alice 5))"
    by (simp add: sample_codec alice_def)
  have h8: "Unmarshal_state sample_json (enc_state (alice 5)) =
              Inr \<lparr>Username = ''alice'', Score = 5\<rparr>"
    using dec_alice5 by (simp add: sample_codec alice_def)
  have five: "Itoa 5 = ''5''"
    by code_simp
  show ?thesis using addUser_idempotent [OF h1 h2 h3 h4 h5 h6 h7 h8] five by simp
qed

text \<open>
  C5 as stated fails on the handler of the first copy: the first request for alice, with
  the score 5, is answered in plain text without a state, and the record stored has the
  score 5, not 0.
\<close>

theorem addUser_text_keeps_supplied_score:
  "addUser_text sample_json None None (add_alice 5) Map.empty =
     (text_reply ''User alice added successfully!'',
      [''user:alice'' \<mapsto> enc_state (alice 5)]) \<and>
   Unmarshal_state sample_json (enc_state (alice 5)) = Inr \<lparr>Username = ''alice'', Score = 5\<rparr>"
proof -
  have h1: "req_Method (add_alice 5) \<noteq> ''OPTIONS''"
    by (simp add: add_alice_def)
  have h2: "Decode_state sample_json (req_Body (add_alice 5)) = Inr (alice 5)"
    using dec_alice5 by (simp add: add_alice_def sample_codec)
  have h3: "redis_Get None Map.empty (''user:'' @ Username (alice 5)) = Inl RedisNil"
    by (simp add: redis_Get_def)
  have h4: "Marshal_state sample_json (alice 5) = Inr (enc_state (alice 5))"
    by (simp add: sample_codec)
  show ?thesis using addUser_text_new [OF h1 h2 h3 h4] dec_alice5
    by (simp add: alice_def sample_codec)
qed

text \<open>
  C10, as amended. In both handlers, whatever error the \<^verbatim>\<open>client.Get\<close> for the username
  gives (\<^verbatim>\<open>redis.Nil\<close> or a failure in transit), the handler goes on to store a fresh
  record under the username's key, over any record already there, and answers with
  success when the write succeeds. The record has the score 0 in the second copy and the
  score of the request in the first.
\<close>

theorem addUser_read_failure_overwrites:
  assumes "req_Method r \<noteq> ''OPTIONS''"
    and "Decode_state js (req_Body r) = Inr user"
    and "redis_Get get_fault kv (''user:'' @ Username user) = Inl err"
    and "Marshal_state js (user\<lparr>Score := 0\<rparr>) = Inr fresh0"
    and "Marshal_state js user = Inr fresh"
  shows "addUser_json js get_fault None r kv =
           (json_reply js
              \<lparr>resp_Username = Username user, resp_Score = 0, resp_State = ''newly added''\<rparr>,
            kv(''user:'' @ Username user \<mapsto> fresh0)) \<and>
         addUser_text js get_fault None r kv =
           (text_reply (''User '' @ Username user @ '' added successfully!''),
            kv(''user:'' @ Username user \<mapsto> fresh))"
  using addUser_json_new [OF assms(1,2,3,4)] addUser_text_new [OF assms(1,2,3,5)] by simp

text \<open>
  Alice is stored with the score 30 and the read times out: a request to add her with the
  score 5 overwrites her record, with the score 0 in the second copy and 5 in the first.
\<close>

theorem addUser_read_failure_overwrites_witness:
  "addUser_json sample_json (Some (StoreError ''i/o timeout'')) None (add_alice 5)
       [''user:alice'' \<mapsto> enc_state (alice 30)] =
     (json_reply sample_json
        \<lparr>resp_Username = ''alice'', resp_Score = 0, resp_State = ''newly added''\<rparr>,
      [''user:alice'' \<mapsto> enc_state (alice 0)]) \<and>
   addUser_text sample_json (Some (StoreError ''i/o timeout'')) None (add_alice 5)
       [''user:alice'' \<mapsto> enc_state (alice 30)] =
     (text_reply ''User alice added successfully!'', [''user:alice'' \<mapsto> enc_state (alice 5)])"
proof -
  have h1: "req_Method (add_alice 5) \<noteq> ''OPTIONS''"
    by (simp add: add_alice_def)
  have h2: "Decode_state sample_json (req_Body (add_alice 5)) = Inr (alice 5)"
    using dec_alice5 by (simp add: add_alice_def sample_codec)
  have h3: "redis_Get (Some (StoreError ''i/o timeout''))
              [''user:alice'' \<mapsto> enc_state (alice 30)]
              (''user:'' @ Username (alice 5)) = Inl (StoreError ''i/o timeout'')"
    by (simp add: redis_Get_def)
  have h4: "Marshal_state sample_json ((alice 5)\<lparr>Score := 0\<rparr>) = Inr (enc_state (alice 0))"
    by (simp add: sample_codec alice_def)
  have h5: "Marshal_state sample_json (alice 5) = Inr (enc_state (alice 5))"
    by (simp add: sample_codec)
  show ?thesis using addUser_read_failure_overwrites [OF h1 h2 h3 h4 h5]
    by (simp add: alice_def)
qed

text \<open>
  C10 as stated fails on the handler of the first copy: after the failed read, the record
  written over alice's has the score 5 of the request, not 0.
\<close>

theorem addUser_text_overwrites_with_supplied_score:
  "snd (addUser_text sample_json (Some (StoreError ''i/o timeout'')) None (add_alice 5)
          [''user:alice'' \<mapsto> enc_state (alice 30)]) ''user:alice'' =
     Some (enc_state (alice 5)) \<and>
   Unmarshal_state sample_json (enc_state (alice 5)) = Inr \<lparr>Username = ''alice'', Score = 5\<rparr>"
proof -
  have h1: "req_Method (add_alice 5) \<noteq> ''OPTIONS''"
    by (simp add: add_alice_def)
  have h2: "Decode_state sample_json (req_Body (add_alice 5)) = Inr (alice 5)"
    using dec_alice5 by (simp add: add_alice_def sample_codec)
  have h3: "redis_Get (Some (StoreError ''i/o timeout''))
              [''user:alice'' \<mapsto> enc_state (alice 30)]
              (''user:'' @ Username (alice 5)) = Inl (StoreError ''i/o timeout'')"
    by (simp add: redis_Get_def)
  have h5: "Marshal_state sample_json (alice 5) = Inr (enc_state (alice 5))"
    by (simp add: sample_codec)
  show ?thesis using addUser_text_new [OF h1 h2 h3 h5] dec_alice5
    by (simp add: alice_def sample_codec)
qed

end
